theory Spec2Isabelle
  imports Main
begin

section \<open>Strings, characters and errors\<close>

text \<open>
  A JavaScript string is a sequence of UTF-16 code units. The development keeps a string
  as a HOL \<open>string\<close>, one \<open>char\<close> per code unit, so it covers the strings whose code
  units are below 256 (ASCII and Latin-1); \<open>length\<close> is the source's \<open>.length\<close>.
  An exception of the source is a value of \<open>error\<close>, and a function that can throw
  returns \<open>error + 'a\<close> with the exception on the left. \<open>NotModelled\<close> marks the
  outcomes that depend on the host runtime beyond this development: Date construction,
  RegExp compilation, JSON texts other than a string literal, code units above 255.
\<close>

datatype error =
    RQLParseError string
  | RQLConversionError
  | URIError
  | TypeError
  | NotModelled

definition backslash :: char where
  "backslash = CHR 0x5C"

definition squote :: char where
  "squote = CHR 0x27"

definition dquote :: char where
  "dquote = CHR 0x22"

text \<open>\<open>\w\<close> of a regular expression without the unicode flag: \<open>[A-Za-z0-9_]\<close>.\<close>

definition isWordChar :: "char \<Rightarrow> bool" where
  "isWordChar c \<longleftrightarrow>
     (let n = (of_char c :: nat) in
      (65 \<le> n \<and> n \<le> 90) \<or> (97 \<le> n \<and> n \<le> 122) \<or> (48 \<le> n \<and> n \<le> 57) \<or> n = 95)"

text \<open>
  White space and line terminators as \<open>String.prototype.trim\<close> strips them, among the
  code units below 256: TAB, LF, VT, FF, CR, SPACE and NBSP.
\<close>

definition isWhiteSpace :: "char \<Rightarrow> bool" where
  "isWhiteSpace c \<longleftrightarrow> (of_char c :: nat) \<in> {9, 10, 11, 12, 13, 32, 160}"

definition isLineTerminator :: "char \<Rightarrow> bool" where
  "isLineTerminator c \<longleftrightarrow> (of_char c :: nat) \<in> {10, 13}"

definition js_trim :: "string \<Rightarrow> string" where
  "js_trim s = rev (dropWhile isWhiteSpace (rev (dropWhile isWhiteSpace s)))"

section \<open>Regular expressions with backtracking\<close>

text \<open>
  The regular expressions of the source are kept as syntax trees and run by a
  backtracking matcher. \<open>rmatch r s\<close> lists what is left of \<open>s\<close> after each way \<open>r\<close>
  can match a prefix of it, in the order in which a backtracking engine tries them: the
  left alternative before the right one, a greedy star with more iterations before
  fewer. The head of the list is the match the engine reports. An iteration of a star
  that consumes nothing is not taken, as in ECMAScript.
\<close>

datatype regex =
    Chr char
  | Class "char \<Rightarrow> bool"
  | Eps
  | Eos
  | Seq regex regex
  | Alt regex regex
  | Star regex

primrec star_iter :: "(string \<Rightarrow> string list) \<Rightarrow> nat \<Rightarrow> string \<Rightarrow> string list" where
  "star_iter f 0 s = [s]"
| "star_iter f (Suc n) s =
     concat (map (\<lambda>r. if length r < length s then star_iter f n r else []) (f s)) @ [s]"

primrec rmatch :: "regex \<Rightarrow> string \<Rightarrow> string list" where
  "rmatch (Chr c) s = (case s of [] \<Rightarrow> [] | x # r \<Rightarrow> if x = c then [r] else [])"
| "rmatch (Class p) s = (case s of [] \<Rightarrow> [] | x # r \<Rightarrow> if p x then [r] else [])"
| "rmatch Eps s = [s]"
| "rmatch Eos s = (if s = [] then [s] else [])"
| "rmatch (Seq a b) s = concat (map (rmatch b) (rmatch a s))"
| "rmatch (Alt a b) s = rmatch a s @ rmatch b s"
| "rmatch (Star a) s = star_iter (rmatch a) (length s) s"

definition Opt :: "regex \<Rightarrow> regex" where
  "Opt r = Alt r Eps"

definition Plus :: "regex \<Rightarrow> regex" where
  "Plus r = Seq r (Star r)"

text \<open>The match at the start of the text: what is left after it, if there is one.\<close>

definition rx_match_at :: "regex \<Rightarrow> string \<Rightarrow> string option" where
  "rx_match_at r s = (case rmatch r s of [] \<Rightarrow> None | rest # _ \<Rightarrow> Some rest)"

text \<open>
  \<open>exec\<close>, \<open>match\<close> and \<open>test\<close> of a regular expression that is not anchored: the
  leftmost position at which it matches, tried from 0 to the end of the text included.
  The result is the matched text (\<open>m[0]\<close>).
\<close>

fun rx_search :: "regex \<Rightarrow> string \<Rightarrow> string option" where
  "rx_search r [] = (case rmatch r [] of [] \<Rightarrow> None | _ # _ \<Rightarrow> Some [])"
| "rx_search r (c # t) =
     (case rmatch r (c # t) of
        [] \<Rightarrow> rx_search r t
      | rest # _ \<Rightarrow> Some (take (Suc (length t) - length rest) (c # t)))"

section \<open>The delimited scanner: inside\<close>

text \<open>
  \<open>inside(str, delimiter)\<close> of parser.ts. The loop runs on \<open>str.slice(index)\<close>; its
  state is \<open>insideStr\<close>, \<open>untilCount\<close>, \<open>delimited\<close> and \<open>quoteType\<close> (\<open>None\<close> for
  the empty string). Running off the end of the text throws.
\<close>

fun inside_loop ::
  "string \<Rightarrow> string \<Rightarrow> string \<Rightarrow> int \<Rightarrow> bool \<Rightarrow> char option \<Rightarrow> error + string" where
  "inside_loop delimiter [] insideStr untilCount delimited quoteType =
     Inl (RQLParseError ''Could not find closing paren'')"
| "inside_loop delimiter (c # cs) insideStr untilCount delimited quoteType =
     (if delimited then inside_loop delimiter cs (insideStr @ [c]) untilCount False quoteType
      else if quoteType = None \<and> [c] = delimiter then
        inside_loop delimiter cs insideStr untilCount True quoteType
      else if c = squote \<or> c = dquote then
        (if quoteType = None then
           inside_loop delimiter cs (insideStr @ [c]) untilCount delimited (Some c)
         else if quoteType = Some c then
           inside_loop delimiter cs (insideStr @ [c]) untilCount delimited None
         else inside_loop delimiter cs (insideStr @ [c]) untilCount delimited quoteType)
      else if quoteType \<noteq> None then
        inside_loop delimiter cs (insideStr @ [c]) untilCount delimited quoteType
      else if c = CHR ''('' then
        inside_loop delimiter cs (insideStr @ [c]) (untilCount + 1) delimited quoteType
      else if c = CHR '')'' then
        (if untilCount - 1 = 0 then Inr insideStr
         else inside_loop delimiter cs (insideStr @ [c]) (untilCount - 1) delimited quoteType)
      else inside_loop delimiter cs (insideStr @ [c]) untilCount delimited quoteType)"

definition inside :: "string \<Rightarrow> string \<Rightarrow> error + string" where
  "inside str delimiter = inside_loop delimiter (drop 1 str) [] 1 False None"

text \<open>The default of the \<open>delimiter\<close> parameter.\<close>

definition default_delimiter :: string where
  "default_delimiter = [backslash]"

section \<open>The trimmer\<close>

text \<open>
  \<open>trim(str)\<close> of parser.ts: \<open>/^'.*'$/\<close> and \<open>/^".*"$/\<close> are anchored at the start, so
  they are matched at position 0 only; \<open>.\<close> matches every code unit but a line
  terminator; \<open>slice(1, -1)\<close> drops the first and the last code unit.
\<close>

definition rx_dot :: regex where
  "rx_dot = Class (\<lambda>c. \<not> isLineTerminator c)"

definition rx_wrapped :: "char \<Rightarrow> regex" where
  "rx_wrapped q = Seq (Chr q) (Seq (Star rx_dot) (Seq (Chr q) Eos))"

definition trim :: "string \<Rightarrow> string" where
  "trim str =
     (let trimmed = js_trim str in
      if rx_match_at (rx_wrapped squote) trimmed \<noteq> None
         \<or> rx_match_at (rx_wrapped dquote) trimmed \<noteq> None
      then butlast (tl trimmed)
      else trimmed)"

lemma trim_length: "length (trim str) \<le> length str"
proof -
  have a: "length (js_trim str) \<le> length str"
    unfolding js_trim_def
    by (metis length_dropWhile_le length_rev order_trans)
  have b: "length (butlast (tl (js_trim str))) \<le> length (js_trim str)"
    by simp
  show ?thesis
    unfolding trim_def Let_def using a b by auto
qed


text \<open>What \<open>inside\<close> returns is shorter than the text it scanned.\<close>

lemma inside_loop_length:
  "inside_loop d rest ins n del q = Inr r \<Longrightarrow> length r < length ins + length rest"
proof (induction rest arbitrary: ins n del q)
  case Nil
  then show ?case by simp
next
  case (Cons c cs)
  then show ?case
    by (fastforce split: if_splits)
qed

lemma inside_length: "inside (c # cs) d = Inr r \<Longrightarrow> length r < length cs"
  unfolding inside_def using inside_loop_length [of d cs "[]" 1 False None r] by simp

section \<open>The argument splitter\<close>

text \<open>
  \<open>splitArguments(str, delimiter)\<close> of parser.ts returns \<open>Array<string | any[]>\<close>: an
  argument is a string or, for a parenthesised group at the start of an argument, the
  array of the arguments inside it. The loop runs on \<open>str.slice(index)\<close>. The nested
  calls of \<open>inside\<close> and \<open>splitArguments\<close> do not pass \<open>delimiter\<close> on, so they run
  with the default. After an array the index moves by \<open>arr.length + 1\<close>, then by the
  length of the first match of \<open>/( *,)| *$/\<close> in the rest, then by the loop's own
  increment.
\<close>

datatype rawarg = RStr string | RArr "rawarg list"

definition rx_toNextArg :: regex where
  "rx_toNextArg =
     Alt (Seq (Star (Chr CHR '' '')) (Chr CHR '',''))
         (Seq (Star (Chr CHR '' '')) Eos)"

function splitArguments_loop ::
  "string \<Rightarrow> string \<Rightarrow> rawarg list \<Rightarrow> string \<Rightarrow> bool \<Rightarrow> char option \<Rightarrow> error + rawarg list" where
  "splitArguments_loop delimiter [] args currentArg delimited quoteType =
     Inr (if length (js_trim currentArg) > 0 then args @ [RStr (trim currentArg)] else args)"
| "splitArguments_loop delimiter (c # cs) args currentArg delimited quoteType =
     (if delimited then splitArguments_loop delimiter cs args (currentArg @ [c]) False quoteType
      else if quoteType = None \<and> [c] = delimiter then
        splitArguments_loop delimiter cs args currentArg True quoteType
      else if c = squote \<or> c = dquote then
        (if quoteType = None then
           splitArguments_loop delimiter cs args currentArg delimited (Some c)
         else if quoteType = Some c then
           splitArguments_loop delimiter cs args currentArg delimited None
         else splitArguments_loop delimiter cs args (currentArg @ [c]) delimited quoteType)
      else if quoteType \<noteq> None then
        splitArguments_loop delimiter cs args (currentArg @ [c]) delimited quoteType
      else if length currentArg = 0 then
        (if c = CHR ''('' then
           (case inside (c # cs) default_delimiter of
              Inl e \<Rightarrow> Inl e
            | Inr arr \<Rightarrow>
                (case splitArguments_loop default_delimiter arr [] [] False None of
                   Inl e \<Rightarrow> Inl e
                 | Inr sub \<Rightarrow>
                     (let rest = drop (length arr + 1) (c # cs);
                          toNextArg = (case rx_search rx_toNextArg rest of
                                         None \<Rightarrow> 0 | Some m \<Rightarrow> length m)
                      in splitArguments_loop delimiter (drop (toNextArg + 1) rest)
                           (args @ [RArr sub]) currentArg delimited quoteType)))
         else if c = CHR '' '' then
           splitArguments_loop delimiter cs args currentArg delimited quoteType
         else splitArguments_loop delimiter cs args (currentArg @ [c]) delimited quoteType)
      else if c = CHR '','' then
        splitArguments_loop delimiter cs (args @ [RStr (trim currentArg)]) [] delimited quoteType
      else if c = CHR ''('' then
        (case inside (c # cs) default_delimiter of
           Inl e \<Rightarrow> Inl e
         | Inr strInside \<Rightarrow>
             splitArguments_loop delimiter (drop (length strInside + 1) (c # cs)) args
               (currentArg @ c # strInside) delimited quoteType)
      else splitArguments_loop delimiter cs args (currentArg @ [c]) delimited quoteType)"
  by pat_completeness auto
termination
  by (relation "measure (\<lambda>(d, rest, args, cur, del, q). length rest)")
     (auto dest: inside_length)

definition splitArguments :: "string \<Rightarrow> string \<Rightarrow> error + rawarg list" where
  "splitArguments str delimiter = splitArguments_loop delimiter str [] [] False None"

text \<open>
  No argument string is longer than the text that was split: the bound under which the
  parser's recursion into an argument terminates.
\<close>

primrec maxlen :: "rawarg \<Rightarrow> nat" and maxlens :: "rawarg list \<Rightarrow> nat" where
  "maxlen (RStr s) = length s"
| "maxlen (RArr xs) = maxlens xs"
| "maxlens [] = 0"
| "maxlens (x # xs) = max (maxlen x) (maxlens xs)"

lemma maxlens_append: "maxlens (xs @ ys) = max (maxlens xs) (maxlens ys)"
  by (induction xs) auto

lemma splitArguments_loop_maxlens:
  "splitArguments_loop d rest args cur del q = Inr res \<Longrightarrow>
   maxlens res \<le> max (maxlens args) (length cur + length rest)"
proof (induction d rest args cur del q arbitrary: res rule: splitArguments_loop.induct)
  case (1 delimiter args currentArg delimited quoteType)
  then show ?case
    using trim_length [of currentArg] by (auto simp: maxlens_append split: if_splits)
next
  case (2 delimiter c cs args currentArg delimited quoteType)
  show ?case
  proof (cases "delimited \<or> (quoteType = None \<and> [c] = delimiter) \<or> c = squote \<or> c = dquote
                \<or> quoteType \<noteq> None")
    case True
    then show ?thesis
      using "2.prems" "2.IH"(1-6)
      by (fastforce split: if_splits)
  next
    case plain: False
    show ?thesis
    proof (cases "length currentArg = 0")
      case True
      show ?thesis
      proof (cases "c = CHR ''(''")
        case paren: True
        from "2.prems" plain True paren obtain arr sub where
          arr: "inside (c # cs) default_delimiter = Inr arr" and
          sub: "splitArguments_loop default_delimiter arr [] [] False None = Inr sub" and
          res: "splitArguments_loop delimiter
                  (drop ((case rx_search rx_toNextArg (drop (length arr + 1) (c # cs)) of
                            None \<Rightarrow> 0 | Some m \<Rightarrow> length m) + 1)
                     (drop (length arr + 1) (c # cs)))
                  (args @ [RArr sub]) currentArg delimited quoteType = Inr res"
          by (auto simp: Let_def split: sum.splits)
        have 1: "maxlens sub \<le> length arr"
          using "2.IH"(7) [OF _ _ _ _ _ _ arr sub] plain True paren by auto
        have 2: "length arr < length cs" using arr by (rule inside_length)
        have 3: "maxlens res \<le> max (maxlens (args @ [RArr sub]))
                   (length currentArg + length (drop ((case rx_search rx_toNextArg (drop (length arr + 1) (c # cs)) of
                            None \<Rightarrow> 0 | Some m \<Rightarrow> length m) + 1)
                     (drop (length arr + 1) (c # cs))))"
          using "2.IH"(8) [OF _ _ _ _ _ _ arr sub refl refl res] plain True paren by auto
        show ?thesis using 1 2 3 by (auto simp: maxlens_append)
      next
        case False
        then show ?thesis
          using "2.prems" "2.IH"(9,10) plain True
          by (fastforce split: if_splits)
      qed
    next
      case nonempty: False
      show ?thesis
      proof (cases "c = CHR '',''")
        case True
        then show ?thesis
          using "2.prems" "2.IH"(11) plain nonempty trim_length [of currentArg]
          by (fastforce simp: maxlens_append split: if_splits)
      next
        case nocomma: False
        show ?thesis
        proof (cases "c = CHR ''(''")
          case True
          from "2.prems" plain nonempty nocomma True obtain strInside where
            ins: "inside (c # cs) default_delimiter = Inr strInside" and
            res: "splitArguments_loop delimiter (drop (length strInside + 1) (c # cs)) args
                    (currentArg @ c # strInside) delimited quoteType = Inr res"
            by (auto split: sum.splits)
          have 2: "length strInside < length cs" using ins by (rule inside_length)
          have 3: "maxlens res \<le> max (maxlens args)
                     (length (currentArg @ c # strInside)
                      + length (drop (length strInside + 1) (c # cs)))"
            using "2.IH"(12) [OF _ _ _ _ _ _ _ ins res] plain nonempty nocomma True by auto
          show ?thesis using 2 3 by auto
        next
          case False
          then show ?thesis
            using "2.prems" "2.IH"(13) plain nonempty nocomma
            by (fastforce split: if_splits)
        qed
      qed
    qed
  qed
qed

lemma splitArguments_maxlens:
  "splitArguments str d = Inr res \<Longrightarrow> maxlens res \<le> length str"
  unfolding splitArguments_def using splitArguments_loop_maxlens [of d str "[]" "[]" False None res]
  by simp

section \<open>The infix normalizer\<close>

text \<open>
  \<open>String.prototype.replace\<close> with a global regular expression: the text is searched
  from left to right; each match is replaced by what the replacer returns for its
  captures and the search goes on after the match (one code unit further when the match
  is empty); what no match covers is copied. \<open>matcher\<close> gives the match at the start
  of a text, as its captures and what is left. The replacer of \<open>normalizeSyntax\<close> can
  throw, and the first throw ends the replacement.
\<close>

function replace_all ::
  "(string \<Rightarrow> ('cap \<times> string) option) \<Rightarrow> ('cap \<Rightarrow> error + string) \<Rightarrow> string \<Rightarrow> error + string" where
  "replace_all matcher replacer s =
     (case matcher s of
        None \<Rightarrow>
          (case s of
             [] \<Rightarrow> Inr []
           | c # t \<Rightarrow>
               (case replace_all matcher replacer t of
                  Inl e \<Rightarrow> Inl e
                | Inr out \<Rightarrow> Inr (c # out)))
      | Some (cap, rest) \<Rightarrow>
          (case replacer cap of
             Inl e \<Rightarrow> Inl e
           | Inr rep \<Rightarrow>
               if length rest < length s then
                 (case replace_all matcher replacer rest of
                    Inl e \<Rightarrow> Inl e
                  | Inr out \<Rightarrow> Inr (rep @ out))
               else
                 (case s of
                    [] \<Rightarrow> Inr rep
                  | c # t \<Rightarrow>
                      (case replace_all matcher replacer t of
                         Inl e \<Rightarrow> Inl e
                       | Inr out \<Rightarrow> Inr (rep @ c # out)))))"
  by pat_completeness auto
termination
  by (relation "measure (\<lambda>(m, f, s). length s)") auto

definition rx_lit :: "string \<Rightarrow> regex" where
  "rx_lit s = foldr (\<lambda>c r. Seq (Chr c) r) s Eps"

definition replace_all_lit :: "string \<Rightarrow> string \<Rightarrow> string \<Rightarrow> string" where
  "replace_all_lit pat rep s =
     (case replace_all (\<lambda>t. map_option (Pair ()) (rx_match_at (rx_lit pat) t)) (\<lambda>_. Inr rep) s of
        Inl _ \<Rightarrow> s
      | Inr out \<Rightarrow> out)"

text \<open>
  \<open>normalizeSyntax(query)\<close> of parser.ts. Its regular expression is the sequence of
  three capture groups, \<open>property\<close>, \<open>operator\<close> and \<open>value\<close>:
  \<^verbatim>\<open>(\([\+\*\$\-:\w%\._,]+\)|[\+\*\$\-: \w%\._]*|)\<close>,
  \<^verbatim>\<open>([<>!]?=(?:[\w]*=)?|>|<)\<close> and
  \<^verbatim>\<open>(\([\+\*\$\-:\w%\._,]+\)|[\+\*\$\-:\w %\._]*|)\<close>.
  A capture is the text its group consumed.
\<close>

definition operatorMap :: "string \<Rightarrow> string option" where
  "operatorMap = map_of
     [(''!='', ''ne''), (''<'', ''lt''), (''<='', ''le''), (''='', ''eq''), (''=='', ''eq''),
      (''>'', ''gt''), (''>='', ''ge'')]"

definition cls_value_paren :: "char \<Rightarrow> bool" where
  "cls_value_paren c \<longleftrightarrow> c \<in> set ''+*$-:%._,'' \<or> isWordChar c"

definition cls_value :: "char \<Rightarrow> bool" where
  "cls_value c \<longleftrightarrow> c \<in> set ''+*$-: %._'' \<or> isWordChar c"

definition rx_property :: regex where
  "rx_property =
     Alt (Seq (Chr CHR ''('') (Seq (Plus (Class cls_value_paren)) (Chr CHR '')'')))
         (Alt (Star (Class cls_value)) Eps)"

definition rx_operator :: regex where
  "rx_operator =
     Alt (Seq (Opt (Class (\<lambda>c. c \<in> set ''<>!'')))
              (Seq (Chr CHR ''='') (Opt (Seq (Star (Class isWordChar)) (Chr CHR ''='')))))
         (Alt (Chr CHR ''>'') (Chr CHR ''<''))"

definition rx_value :: regex where
  "rx_value =
     Alt (Seq (Chr CHR ''('') (Seq (Plus (Class cls_value_paren)) (Chr CHR '')'')))
         (Alt (Star (Class cls_value)) Eps)"

definition normalize_match :: "string \<Rightarrow> ((string \<times> string \<times> string) \<times> string) option" where
  "normalize_match s =
     (case concat (map (\<lambda>r1. concat (map (\<lambda>r2. map (\<lambda>r3. (r1, r2, r3)) (rmatch rx_value r2))
                                          (rmatch rx_operator r1)))
                       (rmatch rx_property s)) of
        [] \<Rightarrow> None
      | (r1, r2, r3) # _ \<Rightarrow>
          Some ((take (length s - length r1) s,
                 take (length r1 - length r2) r1,
                 take (length r2 - length r3) r2), r3))"

definition normalize_replacer :: "string \<times> string \<times> string \<Rightarrow> error + string" where
  "normalize_replacer cap =
     (case cap of (property, operator, val) \<Rightarrow>
        (if length operator < 3 then
           (case operatorMap operator of
              None \<Rightarrow> Inl (RQLParseError (''Illegal operator: '' @ [dquote] @ operator @ [dquote]))
            | Some name \<Rightarrow> Inr (name @ ''('' @ property @ '','' @ val @ '')''))
         else Inr (butlast (tl operator) @ ''('' @ property @ '','' @ val @ '')'')))"

definition normalizeSyntax :: "string \<Rightarrow> error + string" where
  "normalizeSyntax query =
     (let query1 = replace_all_lit ''%3E'' ''=gt=''
                     (replace_all_lit ''%3C'' ''=lt=''
                       (replace_all_lit ''%3E='' ''=ge=''
                         (replace_all_lit ''%3C='' ''=le='' query)))
      in replace_all normalize_match normalize_replacer query1)"

section \<open>Numbers\<close>

text \<open>
  A finite number is kept as its exact decimal value \<open>m * 10 ^ e\<close>, with \<open>m\<close> not
  divisible by 10 (zero is \<open>Finite 0 0\<close>), so that equal numbers are equal values. The
  rounding to a binary64 double and the sign of zero are not kept.
\<close>

datatype jsnum = Finite int int | PosInfinity | NegInfinity | NaN

function normDec :: "nat \<Rightarrow> int \<Rightarrow> nat \<times> int" where
  "normDec m e =
     (if m = 0 then (0, 0)
      else if m mod 10 = 0 then normDec (m div 10) (e + 1)
      else (m, e))"
  by pat_completeness auto
termination
  by (relation "measure fst") auto

definition mkFinite :: "bool \<Rightarrow> nat \<Rightarrow> int \<Rightarrow> jsnum" where
  "mkFinite negative m e =
     (case normDec m e of (m', e') \<Rightarrow> Finite (if negative then - int m' else int m') e')"

definition intNum :: "int \<Rightarrow> jsnum" where
  "intNum i = mkFinite (i < 0) (nat \<bar>i\<bar>) 0"

definition isDigit :: "char \<Rightarrow> bool" where
  "isDigit c \<longleftrightarrow> (let n = (of_char c :: nat) in 48 \<le> n \<and> n \<le> 57)"

text \<open>The value of a digit in a radix up to 16; \<open>None\<close> when it is not one.\<close>

definition digitValue :: "nat \<Rightarrow> char \<Rightarrow> nat option" where
  "digitValue radix c =
     (let n = (of_char c :: nat);
          v = (if 48 \<le> n \<and> n \<le> 57 then n - 48
               else if 97 \<le> n \<and> n \<le> 102 then n - 87
               else if 65 \<le> n \<and> n \<le> 70 then n - 55
               else 16)
      in if v < radix then Some v else None)"

fun digitsValue :: "nat \<Rightarrow> nat \<Rightarrow> string \<Rightarrow> nat option" where
  "digitsValue radix acc [] = Some acc"
| "digitsValue radix acc (c # cs) =
     (case digitValue radix c of
        None \<Rightarrow> None
      | Some v \<Rightarrow> digitsValue radix (radix * acc + v) cs)"

text \<open>
  \<open>StrUnsignedDecimalLiteral\<close> without \<open>Infinity\<close>: digits, an optional fraction and an
  optional exponent; a dot needs a digit on one side, an exponent needs its digits.
\<close>

definition exponentPart :: "string \<Rightarrow> int option" where
  "exponentPart r =
     (case r of
        [] \<Rightarrow> Some 0
      | c # r1 \<Rightarrow>
          if c = CHR ''e'' \<or> c = CHR ''E'' then
            (let negative = (case r1 of [] \<Rightarrow> False | s # _ \<Rightarrow> s = CHR ''-'');
                 r2 = (case r1 of [] \<Rightarrow> []
                       | s # t \<Rightarrow> if s = CHR ''-'' \<or> s = CHR ''+'' then t else r1)
             in if r2 = [] then None
                else (case digitsValue 10 0 r2 of
                        None \<Rightarrow> None
                      | Some v \<Rightarrow> Some (if negative then - int v else int v)))
          else None)"

definition unsignedDecimal :: "string \<Rightarrow> (nat \<times> int) option" where
  "unsignedDecimal t =
     (let ip = takeWhile isDigit t; r1 = dropWhile isDigit t;
          hasDot = (case r1 of [] \<Rightarrow> False | c # _ \<Rightarrow> c = CHR ''.'');
          fp = (if hasDot then takeWhile isDigit (tl r1) else []);
          r2 = (if hasDot then dropWhile isDigit (tl r1) else r1)
      in if ip = [] \<and> fp = [] then None
         else (case exponentPart r2 of
                 None \<Rightarrow> None
               | Some ex \<Rightarrow>
                   (case digitsValue 10 0 (ip @ fp) of
                      None \<Rightarrow> None
                    | Some m \<Rightarrow> Some (m, ex - int (length fp)))))"

definition signedDecimal :: "string \<Rightarrow> jsnum" where
  "signedDecimal t =
     (let negative = (case t of [] \<Rightarrow> False | s # _ \<Rightarrow> s = CHR ''-'');
          u = (case t of [] \<Rightarrow> []
               | s # r \<Rightarrow> if s = CHR ''-'' \<or> s = CHR ''+'' then r else t)
      in if u = ''Infinity'' then (if negative then NegInfinity else PosInfinity)
         else (case unsignedDecimal u of
                 None \<Rightarrow> NaN
               | Some (m, e) \<Rightarrow> mkFinite negative m e))"

definition nonDecimal :: "nat \<Rightarrow> string \<Rightarrow> jsnum" where
  "nonDecimal radix ds =
     (if ds = [] then NaN
      else (case digitsValue radix 0 ds of None \<Rightarrow> NaN | Some v \<Rightarrow> mkFinite False v 0))"

text \<open>\<open>Number(x)\<close> for a string \<open>x\<close> (StringToNumber of ECMAScript).\<close>

definition js_Number :: "string \<Rightarrow> jsnum" where
  "js_Number x =
     (let t = js_trim x in
      if t = [] then Finite 0 0
      else if take 2 t = ''0x'' \<or> take 2 t = ''0X'' then nonDecimal 16 (drop 2 t)
      else if take 2 t = ''0o'' \<or> take 2 t = ''0O'' then nonDecimal 8 (drop 2 t)
      else if take 2 t = ''0b'' \<or> take 2 t = ''0B'' then nonDecimal 2 (drop 2 t)
      else signedDecimal t)"

function natToDigits :: "nat \<Rightarrow> string" where
  "natToDigits n =
     (if n < 10 then [char_of (48 + n)]
      else natToDigits (n div 10) @ [char_of (48 + n mod 10)])"
  by pat_completeness auto
termination
  by (relation "measure id") auto

definition intToDigits :: "int \<Rightarrow> string" where
  "intToDigits i = (if i < 0 then ''-'' else []) @ natToDigits (nat \<bar>i\<bar>)"

text \<open>
  \<open>Number.prototype.toString()\<close>: with \<open>s\<close> the \<open>k\<close> digits of the number and
  \<open>n = e + k\<close>, plain digits when \<open>k \<le> n \<le> 21\<close>, a decimal point inside when
  \<open>0 < n \<le> 21\<close>, leading zeros when \<open>-6 < n \<le> 0\<close>, the exponent form otherwise.
\<close>

definition numberToString :: "jsnum \<Rightarrow> string" where
  "numberToString x =
     (case x of
        NaN \<Rightarrow> ''NaN''
      | PosInfinity \<Rightarrow> ''Infinity''
      | NegInfinity \<Rightarrow> ''-Infinity''
      | Finite m e \<Rightarrow>
          if m = 0 then ''0''
          else
            (let s = natToDigits (nat \<bar>m\<bar>); k = int (length s); n = e + k;
                 body =
                   (if k \<le> n \<and> n \<le> 21 then s @ replicate (nat (n - k)) CHR ''0''
                    else if 0 < n \<and> n \<le> 21 then take (nat n) s @ ''.'' @ drop (nat n) s
                    else if - 6 < n \<and> n \<le> 0 then ''0.'' @ replicate (nat (- n)) CHR ''0'' @ s
                    else
                      (let ex = (if n - 1 < 0 then ''-'' else ''+'') @ natToDigits (nat \<bar>n - 1\<bar>)
                       in if k = 1 then s @ ''e'' @ ex
                          else take 1 s @ ''.'' @ drop 1 s @ ''e'' @ ex))
             in (if m < 0 then ''-'' else []) @ body))"

section \<open>Values\<close>

text \<open>
  The values the parser builds and the serializer reads: the primitives, arrays, the
  plain object \<open>{name, args}\<close> that \<open>walkQuery\<close> returns (\<open>Operator\<close>, the interface
  \<open>RQLOperator\<close>), an instance of the class \<open>RQLQuery\<close> (\<open>Query\<close>), and the wrapper
  object \<open>Object(str)\<close> (\<open>StringObject\<close>). Dates, regular expressions and parsed JSON
  objects are host objects outside the development.
\<close>

datatype jsval =
    Undefined
  | Null
  | Bool bool
  | Num jsnum
  | Str string
  | Arr "jsval list"
  | Operator string "jsval list"
  | Query string "jsval list"
  | StringObject string

section \<open>String operations of the host\<close>

text \<open>\<open>charAt\<close> is the empty string out of range.\<close>

definition charAt :: "string \<Rightarrow> int \<Rightarrow> string" where
  "charAt s i = (if 0 \<le> i \<and> nat i < length s then [s ! nat i] else [])"

text \<open>\<open>substring(a, b)\<close> clamps both indices to the string and swaps them when \<open>a > b\<close>.\<close>

definition js_substring :: "string \<Rightarrow> int \<Rightarrow> int \<Rightarrow> string" where
  "js_substring s a b =
     (let n = int (length s);
          a' = max 0 (min a n); b' = max 0 (min b n);
          from = min a' b'; to = max a' b'
      in take (nat (to - from)) (drop (nat from) s))"

text \<open>\<open>indexOf\<close> of a single character, \<open>-1\<close> when it is absent.\<close>

definition indexOf :: "string \<Rightarrow> char \<Rightarrow> int" where
  "indexOf s c = (if c \<in> set s then int (length (takeWhile (\<lambda>x. x \<noteq> c) s)) else - 1)"

text \<open>\<open>replace\<close> with a string pattern replaces the first occurrence only.\<close>

fun replace_first :: "string \<Rightarrow> string \<Rightarrow> string \<Rightarrow> string" where
  "replace_first pat rep [] = (if pat = [] then rep else [])"
| "replace_first pat rep (c # cs) =
     (if take (length pat) (c # cs) = pat then rep @ drop (length pat) (c # cs)
      else c # replace_first pat rep cs)"

definition toLowerChar :: "char \<Rightarrow> char" where
  "toLowerChar c =
     (let n = (of_char c :: nat) in
      if (65 \<le> n \<and> n \<le> 90) \<or> (192 \<le> n \<and> n \<le> 222 \<and> n \<noteq> 215) then char_of (n + 32) else c)"

definition toLowerCase :: "string \<Rightarrow> string" where
  "toLowerCase s = map toLowerChar s"

subsection \<open>Percent encoding\<close>

definition hexDigit :: "nat \<Rightarrow> char" where
  "hexDigit n = (if n < 10 then char_of (48 + n) else char_of (55 + n))"

definition percentByte :: "nat \<Rightarrow> string" where
  "percentByte b = [CHR ''%'', hexDigit (b div 16), hexDigit (b mod 16)]"

definition uriUnreserved :: "char \<Rightarrow> bool" where
  "uriUnreserved c \<longleftrightarrow>
     (let n = (of_char c :: nat) in
      (65 \<le> n \<and> n \<le> 90) \<or> (97 \<le> n \<and> n \<le> 122) \<or> (48 \<le> n \<and> n \<le> 57)
      \<or> c \<in> set ''-_.!~*'()'')"

text \<open>
  \<open>encodeURIComponent\<close>: an unreserved character stays, every other code unit becomes
  the percent-encoded bytes of its UTF-8 form (one byte below 128, two from 128 to 255).
\<close>

definition encodeUnit :: "char \<Rightarrow> string" where
  "encodeUnit c =
     (let n = (of_char c :: nat) in
      if uriUnreserved c then [c]
      else if n < 128 then percentByte n
      else percentByte (192 + n div 64) @ percentByte (128 + n mod 64))"

definition encodeURIComponent :: "string \<Rightarrow> string" where
  "encodeURIComponent s = concat (map encodeUnit s)"

text \<open>One percent-encoded byte at the start of a text, and what follows it.\<close>

definition percentOctet :: "string \<Rightarrow> (nat \<times> string) option" where
  "percentOctet s =
     (case s of
        p # h1 # h2 # rest \<Rightarrow>
          if p = CHR ''%'' then
            (case (digitValue 16 h1, digitValue 16 h2) of
               (Some a, Some b) \<Rightarrow> Some (16 * a + b, rest)
             | _ \<Rightarrow> None)
          else None
      | _ \<Rightarrow> None)"

lemma percentOctet_length: "percentOctet s = Some (b, rest) \<Longrightarrow> length rest < length s"
  by (auto simp: percentOctet_def split: list.splits if_splits option.splits)

text \<open>The continuation bytes of a UTF-8 sequence, folded into the code point.\<close>

fun continuation :: "nat \<Rightarrow> nat \<Rightarrow> string \<Rightarrow> (nat \<times> string) option" where
  "continuation 0 v s = Some (v, s)"
| "continuation (Suc k) v s =
     (case percentOctet s of
        None \<Rightarrow> None
      | Some (b, rest) \<Rightarrow>
          if 128 \<le> b \<and> b < 192 then continuation k (64 * v + (b - 128)) rest else None)"

lemma continuation_length: "continuation k v s = Some (w, rest) \<Longrightarrow> length rest \<le> length s"
proof (induction k arbitrary: v s)
  case 0
  then show ?case by simp
next
  case (Suc k)
  then show ?case
    by (fastforce split: option.splits if_splits dest: percentOctet_length)
qed

text \<open>
  \<open>decodeURIComponent\<close>: a malformed escape or byte sequence throws \<open>URIError\<close>. A
  well-formed sequence for a code point above 255 leaves the strings kept here: the
  result is \<open>NotModelled\<close>, unless the rest of the text throws.
\<close>

function decodeURIComponent :: "string \<Rightarrow> error + string" where
  "decodeURIComponent [] = Inr []"
| "decodeURIComponent (c # cs) =
     (if c \<noteq> CHR ''%'' then
        (case decodeURIComponent cs of Inl e \<Rightarrow> Inl e | Inr out \<Rightarrow> Inr (c # out))
      else
        (case percentOctet (c # cs) of
           None \<Rightarrow> Inl URIError
         | Some (b, rest) \<Rightarrow>
             if b < 128 then
               (case decodeURIComponent rest of
                  Inl e \<Rightarrow> Inl e
                | Inr out \<Rightarrow> Inr (char_of b # out))
             else if b < 192 \<or> 248 \<le> b then Inl URIError
             else
               (let n = (if b < 224 then 2 else if b < 240 then 3 else 4 :: nat);
                    lead = (if b < 224 then b - 192 else if b < 240 then b - 224 else b - 240);
                    least = (if b < 224 then 128 else if b < 240 then 2048 else 65536 :: nat)
                in case continuation (n - 1) lead rest of
                     None \<Rightarrow> Inl URIError
                   | Some (v, rest') \<Rightarrow>
                       if v < least \<or> 1114111 < v \<or> (55296 \<le> v \<and> v \<le> 57343) then Inl URIError
                       else
                         (case decodeURIComponent rest' of
                            Inl e \<Rightarrow> Inl e
                          | Inr out \<Rightarrow> if v < 256 then Inr (char_of v # out) else Inl NotModelled))))"
  by pat_completeness auto
termination
  by (relation "measure length")
     (auto dest!: percentOctet_length continuation_length)

subsection \<open>JSON string literals\<close>

text \<open>
  \<open>JSON.parse\<close> of a text that starts with a double quote: the text has to be one string
  literal, followed by JSON white space only. \<open>jsonStringBody\<close> reads what follows the
  opening quote. Every syntax error is the \<open>RQLConversionError\<close> that
  \<open>converters.json\<close> makes of it.
\<close>

definition isJsonSpace :: "char \<Rightarrow> bool" where
  "isJsonSpace c \<longleftrightarrow> (of_char c :: nat) \<in> {9, 10, 13, 32}"

definition simpleEscape :: "char \<Rightarrow> char option" where
  "simpleEscape c =
     (if c = dquote then Some dquote
      else if c = backslash then Some backslash
      else if c = CHR ''/'' then Some CHR ''/''
      else if c = CHR ''b'' then Some (CHR 0x08)
      else if c = CHR ''f'' then Some (CHR 0x0C)
      else if c = CHR ''n'' then Some (CHR 0x0A)
      else if c = CHR ''r'' then Some (CHR 0x0D)
      else if c = CHR ''t'' then Some (CHR 0x09)
      else None)"

fun jsonStringBody :: "string \<Rightarrow> error + string" where
  "jsonStringBody [] = Inl RQLConversionError"
| "jsonStringBody (c # cs) =
     (if c = dquote then (if list_all isJsonSpace cs then Inr [] else Inl RQLConversionError)
      else if c = backslash then
        (case cs of
           [] \<Rightarrow> Inl RQLConversionError
         | e # r \<Rightarrow>
             if e = CHR ''u'' then
               (case r of
                  h1 # h2 # h3 # h4 # r' \<Rightarrow>
                    (case digitsValue 16 0 [h1, h2, h3, h4] of
                       None \<Rightarrow> Inl RQLConversionError
                     | Some v \<Rightarrow>
                         (case jsonStringBody r' of
                            Inl err \<Rightarrow> Inl err
                          | Inr out \<Rightarrow> if v < 256 then Inr (char_of v # out) else Inl NotModelled))
                | _ \<Rightarrow> Inl RQLConversionError)
             else
               (case simpleEscape e of
                  None \<Rightarrow> Inl RQLConversionError
                | Some x \<Rightarrow>
                    (case jsonStringBody r of Inl err \<Rightarrow> Inl err | Inr out \<Rightarrow> Inr (x # out))))
      else if (of_char c :: nat) < 32 then Inl RQLConversionError
      else (case jsonStringBody cs of Inl err \<Rightarrow> Inl err | Inr out \<Rightarrow> Inr (c # out)))"

section \<open>The converters\<close>

text \<open>
  converters.ts. \<open>autoConverted\<close> is the table of fixed literals; \<open>hasOwnProperty\<close>
  looks at its own keys only.
\<close>

definition autoConverted :: "string \<Rightarrow> jsval option" where
  "autoConverted = map_of
     [(''true'', Bool True), (''false'', Bool False), (''null'', Null),
      (''undefined'', Undefined), (''Infinity'', Num PosInfinity),
      (''-Infinity'', Num NegInfinity)]"

definition converters_number :: "string \<Rightarrow> error + jsval" where
  "converters_number x =
     (let num = js_Number x in
      if num = NaN then Inl RQLConversionError else Inr (Num num))"

definition converters_boolean :: "string \<Rightarrow> error + jsval" where
  "converters_boolean x = Inr (Bool (toLowerCase x = ''true''))"

definition converters_string :: "string \<Rightarrow> error + string" where
  "converters_string str = decodeURIComponent str"

text \<open>
  \<open>converters.json\<close>: \<open>JSON.parse\<close> with every exception turned into a conversion
  error. Only the texts that start with a double quote are evaluated here.
\<close>

definition converters_json :: "string \<Rightarrow> error + jsval" where
  "converters_json x =
     (case x of
        [] \<Rightarrow> Inl RQLConversionError
      | c # cs \<Rightarrow>
          if c = dquote then (case jsonStringBody cs of Inl e \<Rightarrow> Inl e | Inr s \<Rightarrow> Inr (Str s))
          else Inl NotModelled)"

text \<open>
  \<open>converters.auto\<close>. The test of the closing quote reads the decoded \<open>strVal\<close> at the
  index \<open>str.length - 1\<close> of the raw \<open>str\<close>, and the JSON text is built from the raw
  \<open>str\<close>, as the source has it.
\<close>

definition converters_auto :: "string \<Rightarrow> error + jsval" where
  "converters_auto str =
     (case autoConverted str of
        Some v \<Rightarrow> Inr v
      | None \<Rightarrow>
          (case converters_number str of
             Inr v \<Rightarrow> Inr v
           | Inl numErr \<Rightarrow>
               (case converters_string str of
                  Inl e \<Rightarrow> Inl e
                | Inr strVal \<Rightarrow>
                    if charAt strVal 0 = [squote]
                       \<and> charAt strVal (int (length str) - 1) = [squote]
                    then converters_json
                           ([dquote] @ js_substring str 1 (int (length str) - 1) @ [dquote])
                    else Inr (Str strVal))))"

text \<open>
  The converters a tag can select. \<open>converters[tag]\<close> is a property lookup on an object
  literal, so besides the registered keys it finds what \<open>Object.prototype\<close> provides; a
  lower-cased tag of word characters can name two of those, \<open>constructor\<close> (the function
  \<open>Object\<close>) and \<open>__proto__\<close> (an object, which is not callable).
\<close>

datatype converter =
    Auto | Number | Epoch | Isodate | Date | Boolean | String | Re | RE | Json
  | ObjectConstructor | ObjectPrototype

definition converters :: "string \<Rightarrow> converter option" where
  "converters = map_of
     [(''auto'', Auto), (''number'', Number), (''epoch'', Epoch), (''isodate'', Isodate),
      (''date'', Date), (''boolean'', Boolean), (''string'', String), (''re'', Re),
      (''RE'', RE), (''json'', Json), (''default'', Auto),
      (''constructor'', ObjectConstructor), (''__proto__'', ObjectPrototype)]"

text \<open>The keys the source registers: the own properties of \<open>converters\<close>.\<close>

definition registered :: "string \<Rightarrow> bool" where
  "registered tag \<longleftrightarrow>
     tag \<in> set [''auto'', ''number'', ''epoch'', ''isodate'', ''date'', ''boolean'', ''string'',
                ''re'', ''RE'', ''json'', ''default'']"

text \<open>
  Calling a converter. The converters that build a Date or a RegExp end in
  \<open>NotModelled\<close> once the part of them that is evaluated here has not thrown.
\<close>

definition applyConverter :: "converter \<Rightarrow> string \<Rightarrow> error + jsval" where
  "applyConverter k x =
     (case k of
        Auto \<Rightarrow> converters_auto x
      | Number \<Rightarrow> converters_number x
      | Epoch \<Rightarrow> (case converters_number x of Inl e \<Rightarrow> Inl e | Inr _ \<Rightarrow> Inl NotModelled)
      | Isodate \<Rightarrow> Inl NotModelled
      | Date \<Rightarrow> Inl NotModelled
      | Boolean \<Rightarrow> converters_boolean x
      | String \<Rightarrow> (case converters_string x of Inl e \<Rightarrow> Inl e | Inr s \<Rightarrow> Inr (Str s))
      | Re \<Rightarrow> (case converters_string x of Inl e \<Rightarrow> Inl RQLConversionError | Inr _ \<Rightarrow> Inl NotModelled)
      | RE \<Rightarrow> (case converters_string x of Inl e \<Rightarrow> Inl RQLConversionError | Inr _ \<Rightarrow> Inl NotModelled)
      | Json \<Rightarrow> converters_json x
      | ObjectConstructor \<Rightarrow> Inr (StringObject x)
      | ObjectPrototype \<Rightarrow> Inl TypeError)"

section \<open>stringToValue\<close>

text \<open>
  \<open>stringToValue(str)\<close> of parser.ts. The test is \<open>/^\w+[^\\]:/\<close>: word characters,
  then one character that is not a backslash, then a colon. The split is at
  \<open>str.indexOf(':')\<close>.
\<close>

definition rx_converterTag :: regex where
  "rx_converterTag =
     Seq (Plus (Class isWordChar)) (Seq (Class (\<lambda>c. c \<noteq> backslash)) (Chr CHR '':''))"

definition stringToValue :: "string \<Rightarrow> error + jsval" where
  "stringToValue str =
     (if rx_match_at rx_converterTag str \<noteq> None then
        (let ind = indexOf str CHR '':'';
             converterPart = toLowerCase (js_substring str 0 ind);
             valuePart = js_substring str (ind + 1) (int (length str))
         in case converters converterPart of
              None \<Rightarrow> Inl (RQLParseError (''Unknown converter: '' @ [dquote] @ converterPart))
            | Some converter \<Rightarrow>
                applyConverter converter (replace_first [backslash, CHR '':''] '':'' valuePart))
      else applyConverter Auto (replace_first [backslash, CHR '':''] '':'' str))"

section \<open>Encoding strings\<close>

text \<open>\<open>RQLQuery.encodeString\<close> of query.ts; \<open>/[\(\)]/\<close> is searched anywhere.\<close>

definition rx_paren :: regex where
  "rx_paren = Class (\<lambda>c. c = CHR ''('' \<or> c = CHR '')'')"

definition encodeString :: "string \<Rightarrow> string" where
  "encodeString str =
     (let str1 = encodeURIComponent str in
      if rx_search rx_paren str1 \<noteq> None
      then replace_first '')'' ''%29'' (replace_first ''('' ''%28'' str1)
      else str1)"

section \<open>The precedence walker\<close>

text \<open>\<open>isRQLQuery(str)\<close>: \<open>/\w+\(/\<close> matches somewhere in the text.\<close>

definition rx_operatorCall :: regex where
  "rx_operatorCall = Seq (Plus (Class isWordChar)) (Chr CHR ''('')"

definition isRQLQuery :: "string \<Rightarrow> bool" where
  "isRQLQuery str \<longleftrightarrow> rx_search rx_operatorCall str \<noteq> None"

primrec rsize :: "rawarg \<Rightarrow> nat" and rsizes :: "rawarg list \<Rightarrow> nat" where
  "rsize (RStr s) = 1"
| "rsize (RArr xs) = Suc (rsizes xs)"
| "rsizes [] = 0"
| "rsizes (x # xs) = Suc (rsize x + rsizes xs)"

lemma inside_splitArguments_bound:
  "inside (c # cs) d = Inr insides \<Longrightarrow> splitArguments insides d' = Inr raws \<Longrightarrow>
   maxlens raws \<le> length cs"
  using inside_length [of c cs d insides] splitArguments_maxlens [of insides d' raws] by simp

text \<open>
  \<open>walkQuery(query, index, nestedTopOperator)\<close> and \<open>parseArg(arg)\<close> of parser.ts.
  The loop runs on \<open>query.slice(index)\<close>. Its state is \<open>currentOperator\<close>, a pair of a
  name and arguments, and \<open>topOperator\<close>: \<open>None\<close> while \<open>aggregateOperator\<close> is false,
  when \<open>topOperator\<close> is the very object \<open>currentOperator\<close>, and the aggregate node
  otherwise. An operator pushed into \<open>topOperator.args\<close> is not written to afterwards,
  so the push appends its value. At an opening parenthesis the index moves by
  \<open>insides.length + 1\<close> and by the loop's own increment.
\<close>

function walkQuery_loop ::
    "string \<Rightarrow> string \<times> jsval list \<Rightarrow> (string \<times> jsval list) option \<Rightarrow> error + jsval"
  and parseArg :: "rawarg \<Rightarrow> error + jsval"
  and parseArgs :: "rawarg list \<Rightarrow> error + jsval list" where
  "walkQuery_loop [] currentOperator topOperator =
     (case topOperator of
        None \<Rightarrow> Inr (Operator (fst currentOperator) (snd currentOperator))
      | Some (topName, topArgs) \<Rightarrow>
          Inr (Operator topName
                 (topArgs @ [Operator (fst currentOperator) (snd currentOperator)])))"
| "walkQuery_loop (c # cs) currentOperator topOperator =
     (if c = CHR ''&'' \<or> c = CHR '','' then
        (case topOperator of
           Some (topName, topArgs) \<Rightarrow>
             if topName = ''or'' then
               (case walkQuery_loop cs ([], [])
                       (Some (''and'', [Operator (fst currentOperator) (snd currentOperator)])) of
                  Inl e \<Rightarrow> Inl e
                | Inr nested \<Rightarrow> Inr (Operator topName (topArgs @ [nested])))
             else
               walkQuery_loop cs ([], [])
                 (Some (topName,
                        topArgs @ [Operator (fst currentOperator) (snd currentOperator)]))
         | None \<Rightarrow>
             walkQuery_loop cs ([], [])
               (Some (''and'', [Operator (fst currentOperator) (snd currentOperator)])))
      else if c = CHR ''|'' then
        (case topOperator of
           Some (topName, topArgs) \<Rightarrow>
             if topName = ''and'' then
               (case walkQuery_loop cs ([], []) (Some (''or'', [])) of
                  Inl e \<Rightarrow> Inl e
                | Inr nested \<Rightarrow>
                    Inr (Operator topName
                           (topArgs @ [Operator (fst currentOperator) (snd currentOperator),
                                       nested])))
             else
               walkQuery_loop cs ([], [])
                 (Some (topName,
                        topArgs @ [Operator (fst currentOperator) (snd currentOperator)]))
         | None \<Rightarrow>
             walkQuery_loop cs ([], [])
               (Some (''or'', [Operator (fst currentOperator) (snd currentOperator)])))
      else if c = CHR ''('' then
        (case inside (c # cs) default_delimiter of
           Inl e \<Rightarrow> Inl e
         | Inr insides \<Rightarrow>
             (case splitArguments insides default_delimiter of
                Inl e \<Rightarrow> Inl e
              | Inr raws \<Rightarrow>
                  (case parseArgs raws of
                     Inl e \<Rightarrow> Inl e
                   | Inr vals \<Rightarrow>
                       walkQuery_loop (drop (length insides + 2) (c # cs))
                         (fst currentOperator, vals) topOperator)))
      else walkQuery_loop cs (fst currentOperator @ [c], snd currentOperator) topOperator)"
| "parseArg (RStr s) =
     (if isRQLQuery s then walkQuery_loop s ([], []) None else stringToValue s)"
| "parseArg (RArr xs) = (case parseArgs xs of Inl e \<Rightarrow> Inl e | Inr vals \<Rightarrow> Inr (Arr vals))"
| "parseArgs [] = Inr []"
| "parseArgs (a # as) =
     (case parseArg a of
        Inl e \<Rightarrow> Inl e
      | Inr v \<Rightarrow> (case parseArgs as of Inl e \<Rightarrow> Inl e | Inr vs \<Rightarrow> Inr (v # vs)))"
  by pat_completeness auto
termination
  by (relation "inv_image (less_than <*lex*> less_than)
        (\<lambda>x. case x of
           Inl (rest, cur, tp) \<Rightarrow> (length rest, 0)
         | Inr (Inl a) \<Rightarrow> (maxlen a, rsize a)
         | Inr (Inr as) \<Rightarrow> (maxlens as, rsizes as))")
     (auto dest: inside_length inside_splitArguments_bound simp: less_Suc_eq_le)

definition walkQuery :: "string \<Rightarrow> nat \<Rightarrow> (string \<times> jsval list) option \<Rightarrow> error + jsval" where
  "walkQuery query index nestedTopOperator =
     walkQuery_loop (drop index query) ([], []) nestedTopOperator"

text \<open>\<open>parse(query)\<close> of parser.ts, the two guards first.\<close>

definition parse :: "string \<Rightarrow> error + jsval" where
  "parse query =
     (if query = [] then Inl (RQLParseError (''Query empty or invalid: '' @ query))
      else if charAt query 0 = ''?'' then
        Inl (RQLParseError (''Query must not start with ?: '' @ query))
      else
        (case normalizeSyntax query of
           Inl e \<Rightarrow> Inl e
         | Inr normalizedQuery \<Rightarrow> walkQuery normalizedQuery 0 None))"

section \<open>The serializer\<close>

primrec vsize :: "jsval \<Rightarrow> nat" and vsizes :: "jsval list \<Rightarrow> nat" where
  "vsize Undefined = 0"
| "vsize Null = 0"
| "vsize (Bool b) = 0"
| "vsize (Num n) = 0"
| "vsize (Str s) = 0"
| "vsize (Arr xs) = Suc (vsizes xs)"
| "vsize (Operator n xs) = Suc (vsizes xs)"
| "vsize (Query n xs) = Suc (vsizes xs)"
| "vsize (StringObject s) = 0"
| "vsizes [] = 0"
| "vsizes (x # xs) = Suc (vsize x + vsizes xs)"

definition js_typeof :: "jsval \<Rightarrow> string" where
  "js_typeof v =
     (case v of
        Undefined \<Rightarrow> ''undefined''
      | Bool _ \<Rightarrow> ''boolean''
      | Num _ \<Rightarrow> ''number''
      | Str _ \<Rightarrow> ''string''
      | _ \<Rightarrow> ''object'')"

text \<open>
  \<open>a === b\<close> where \<open>b\<close> is a value a converter has just returned: primitives are equal
  by value (\<open>NaN\<close> to nothing), an object is equal to itself only, so never to \<open>b\<close>.
\<close>

definition strictEquals :: "jsval \<Rightarrow> jsval \<Rightarrow> bool" where
  "strictEquals a b =
     (case a of
        Undefined \<Rightarrow> b = Undefined
      | Null \<Rightarrow> b = Null
      | Bool x \<Rightarrow> b = Bool x
      | Num x \<Rightarrow> x \<noteq> NaN \<and> b = Num x
      | Str x \<Rightarrow> b = Str x
      | _ \<Rightarrow> False)"

text \<open>
  What \<open>Array.prototype.join\<close> makes of an element that is a primitive: \<open>null\<close> and
  \<open>undefined\<close> are the empty string.
\<close>

definition primitiveToString :: "jsval \<Rightarrow> string" where
  "primitiveToString v =
     (case v of
        Bool b \<Rightarrow> (if b then ''true'' else ''false'')
      | Num n \<Rightarrow> numberToString n
      | Str s \<Rightarrow> s
      | _ \<Rightarrow> [])"

fun joinStrings :: "string \<Rightarrow> string list \<Rightarrow> string" where
  "joinStrings delimiter [] = []"
| "joinStrings delimiter [x] = x"
| "joinStrings delimiter (x # y # ys) = x @ delimiter @ joinStrings delimiter (y # ys)"

text \<open>
  \<open>RQLQuery.queryToString\<close>, \<open>serializeArgs\<close> and \<open>encodeValue\<close> of query.ts, with the
  \<open>toString()\<close> that \<open>encodeValue\<close> calls on its argument. \<open>queryToString\<close> returns what
  \<open>encodeValue\<close> returns, which is the value itself when it is a number or a boolean.
  \<open>mapQueryToString\<close> is \<open>args.map(arg => this.queryToString(arg))\<close>. The \<open>toString()\<close>
  of an array joins the strings of its elements with a comma, an \<open>Operator\<close> is a plain
  object and prints as \<open>[object Object]\<close>, and the \<open>toString()\<close> of an \<open>RQLQuery\<close> is
  \<open>queryToString(this)\<close>, here its branch for an \<open>RQLQuery\<close>. The branches of
  \<open>encodeValue\<close> for a RegExp and for a Date have no value to apply to.
\<close>

function queryToString :: "jsval \<Rightarrow> error + jsval"
  and mapQueryToString :: "jsval list \<Rightarrow> error + jsval list"
  and encodeValue :: "jsval \<Rightarrow> error + jsval"
  and toStringMethod :: "jsval \<Rightarrow> error + string"
  and elementStrings :: "jsval list \<Rightarrow> error + string list" where
  "queryToString part =
     (case part of
        Arr xs \<Rightarrow>
          (case mapQueryToString xs of
             Inl e \<Rightarrow> Inl e
           | Inr rs \<Rightarrow> Inr (Str (''('' @ joinStrings '','' (map primitiveToString rs) @ '')'')))
      | Query name args \<Rightarrow>
          (case mapQueryToString args of
             Inl e \<Rightarrow> Inl e
           | Inr rs \<Rightarrow>
               Inr (Str (name @ ''('' @ joinStrings '','' (map primitiveToString rs) @ '')'')))
      | _ \<Rightarrow> encodeValue part)"
| "mapQueryToString [] = Inr []"
| "mapQueryToString (x # xs) =
     (case queryToString x of
        Inl e \<Rightarrow> Inl e
      | Inr r \<Rightarrow> (case mapQueryToString xs of Inl e \<Rightarrow> Inl e | Inr rs \<Rightarrow> Inr (r # rs)))"
| "encodeValue val =
     (if val = Null then Inr (Str ''null'')
      else
        (case toStringMethod val of
           Inl e \<Rightarrow> Inl e
         | Inr text \<Rightarrow>
             (case converters_auto text of
                Inl e \<Rightarrow> Inl e
              | Inr convertedValue \<Rightarrow>
                  if \<not> strictEquals val convertedValue then
                    (case val of
                       Str s \<Rightarrow> Inr (Str (js_typeof val @ '':'' @ encodeString s))
                     | _ \<Rightarrow> Inr (Str (encodeString (js_typeof val @ '':'' @ text))))
                  else
                    (case val of
                       Str s \<Rightarrow> Inr (Str (encodeString s))
                     | _ \<Rightarrow> Inr val))))"
| "toStringMethod v =
     (case v of
        Undefined \<Rightarrow> Inl TypeError
      | Null \<Rightarrow> Inl TypeError
      | Bool b \<Rightarrow> Inr (primitiveToString v)
      | Num n \<Rightarrow> Inr (primitiveToString v)
      | Str s \<Rightarrow> Inr s
      | Arr xs \<Rightarrow>
          (case elementStrings xs of Inl e \<Rightarrow> Inl e | Inr ss \<Rightarrow> Inr (joinStrings '','' ss))
      | Operator name args \<Rightarrow> Inr ''[object Object]''
      | Query name args \<Rightarrow>
          (case mapQueryToString args of
             Inl e \<Rightarrow> Inl e
           | Inr rs \<Rightarrow> Inr (name @ ''('' @ joinStrings '','' (map primitiveToString rs) @ '')''))
      | StringObject s \<Rightarrow> Inr s)"
| "elementStrings [] = Inr []"
| "elementStrings (x # xs) =
     (case (if x = Undefined \<or> x = Null then Inr [] else toStringMethod x) of
        Inl e \<Rightarrow> Inl e
      | Inr s \<Rightarrow> (case elementStrings xs of Inl e \<Rightarrow> Inl e | Inr ss \<Rightarrow> Inr (s # ss)))"
  by pat_completeness auto
termination
  by (relation "inv_image (less_than <*lex*> less_than)
        (\<lambda>x. case x of
           Inl (Inl v) \<Rightarrow> (vsize v, 3)
         | Inl (Inr vs) \<Rightarrow> (vsizes vs, 0)
         | Inr (Inl v) \<Rightarrow> (vsize v, 2)
         | Inr (Inr (Inl v)) \<Rightarrow> (vsize v, 1)
         | Inr (Inr (Inr vs)) \<Rightarrow> (vsizes vs, 0))")
     auto

definition serializeArgs :: "jsval list \<Rightarrow> string \<Rightarrow> error + string" where
  "serializeArgs args delimiter =
     (case mapQueryToString args of
        Inl e \<Rightarrow> Inl e
      | Inr rs \<Rightarrow> Inr (joinStrings delimiter (map primitiveToString rs)))"

text \<open>
  \<open>RQLQuery.parse\<close>, \<open>parseObject\<close> and \<open>parseArg\<close> of the later revision of query.ts:
  the \<open>RQLQuery\<close> of an operator object, with every argument that \<open>isRQLOperator\<close>
  accepts (an object with a non-empty name and an array of arguments) turned into an
  \<open>RQLQuery\<close> as well.
\<close>

primrec rqlQuery_parseArg :: "jsval \<Rightarrow> jsval" where
  "rqlQuery_parseArg Undefined = Undefined"
| "rqlQuery_parseArg Null = Null"
| "rqlQuery_parseArg (Bool b) = Bool b"
| "rqlQuery_parseArg (Num n) = Num n"
| "rqlQuery_parseArg (Str s) = Str s"
| "rqlQuery_parseArg (Arr xs) = Arr xs"
| "rqlQuery_parseArg (Operator name args) =
     (if name \<noteq> [] then Query name (map rqlQuery_parseArg args) else Operator name args)"
| "rqlQuery_parseArg (Query name args) =
     (if name \<noteq> [] then Query name (map rqlQuery_parseArg args) else Query name args)"
| "rqlQuery_parseArg (StringObject s) = StringObject s"

definition parseObject :: "jsval \<Rightarrow> error + jsval" where
  "parseObject obj =
     (case obj of
        Operator name args \<Rightarrow> Inr (Query name (map rqlQuery_parseArg args))
      | Query name args \<Rightarrow> Inr (Query name (map rqlQuery_parseArg args))
      | _ \<Rightarrow> Inl TypeError)"

definition rqlQuery_parse :: "string \<Rightarrow> error + jsval" where
  "rqlQuery_parse query =
     (case parse query of Inl e \<Rightarrow> Inl e | Inr obj \<Rightarrow> parseObject obj)"

section \<open>Query texts made of operator calls\<close>

text \<open>
  The shape of the query texts that the statements about joiners are about. An operator
  call is a name and the text of its group, written \<open>name(body)\<close>. The name holds no
  joiner and no opening parenthesis. The group is one the scanner reads back as it
  stands: \<open>inside\<close> of \<open>(body)\<close> is \<open>body\<close>, so the parenthesis after \<open>body\<close> is the
  one that closes the group and no escape character was dropped on the way (quotes and
  nested groups are allowed). A query text is a list of calls with one joiner between
  each two of them; its top-level joiners are those joiners.
\<close>

definition plainName :: "string \<Rightarrow> bool" where
  "plainName name \<longleftrightarrow>
     CHR ''&'' \<notin> set name \<and> CHR '','' \<notin> set name \<and> CHR ''|'' \<notin> set name
     \<and> CHR ''('' \<notin> set name"

definition closedGroup :: "string \<Rightarrow> bool" where
  "closedGroup body \<longleftrightarrow> inside (''('' @ body @ '')'') default_delimiter = Inr body"

definition wellFormedCall :: "string \<times> string \<Rightarrow> bool" where
  "wellFormedCall c \<longleftrightarrow> plainName (fst c) \<and> closedGroup (snd c)"

definition callText :: "string \<times> string \<Rightarrow> string" where
  "callText c = fst c @ ''('' @ snd c @ '')''"

fun joinCalls :: "(string \<times> string) list \<Rightarrow> string \<Rightarrow> string" where
  "joinCalls [] joiners = []"
| "joinCalls [c] joiners = callText c"
| "joinCalls (c # d # cs) [] = callText c"
| "joinCalls (c # d # cs) (j # joiners) = callText c @ j # joinCalls (d # cs) joiners"

text \<open>The results of a list of parses, up to the first one that throws.\<close>

fun collect :: "(error + 'a) list \<Rightarrow> error + 'a list" where
  "collect [] = Inr []"
| "collect (x # xs) =
     (case x of
        Inl e \<Rightarrow> Inl e
      | Inr v \<Rightarrow> (case collect xs of Inl e \<Rightarrow> Inl e | Inr vs \<Rightarrow> Inr (v # vs)))"

text \<open>
  What the walker makes of one call: the arguments it reads from the group, as the
  branch of \<open>walkQuery\<close> for an opening parenthesis computes them, and the operator node.
  These two are shorthands of the proofs, not functions of the source; \<open>walkQuery_call\<close>
  shows that \<open>callNode\<close> is what \<open>walkQuery\<close> returns for the call alone.
\<close>

definition callArgs :: "string \<times> string \<Rightarrow> error + jsval list" where
  "callArgs c =
     (case splitArguments (snd c) default_delimiter of
        Inl e \<Rightarrow> Inl e
      | Inr raws \<Rightarrow> parseArgs raws)"

definition callNode :: "string \<times> string \<Rightarrow> error + jsval" where
  "callNode c =
     (case callArgs c of Inl e \<Rightarrow> Inl e | Inr vals \<Rightarrow> Inr (Operator (fst c) vals))"

section \<open>Escaping closing parentheses\<close>

text \<open>
  The specification's \<open>s.replace(")", "\\)")\<close>, read as escaping every closing
  parenthesis of \<open>s\<close> with the default delimiter. It follows the specification's words;
  the source has no such function.
\<close>

fun escapeParens :: "string \<Rightarrow> string" where
  "escapeParens [] = []"
| "escapeParens (c # cs) =
     (if c = CHR '')'' then backslash # c # escapeParens cs else c # escapeParens cs)"

text \<open>
  A string has an unescaped quote when, read from the left with a backslash taking the
  next character literally, a quote character is met that no backslash protects.
\<close>

fun unescapedQuote :: "string \<Rightarrow> bool" where
  "unescapedQuote [] = False"
| "unescapedQuote [c] = (c = squote \<or> c = dquote)"
| "unescapedQuote (c # d # cs) =
     (if c = backslash then unescapedQuote cs
      else (c = squote \<or> c = dquote) \<or> unescapedQuote (d # cs))"

section \<open>Properties of the scanner and the splitter\<close>

lemma no_unescapedQuote_no_quote:
  "\<not> unescapedQuote s \<Longrightarrow> backslash \<notin> set s \<Longrightarrow> squote \<notin> set s \<and> dquote \<notin> set s"
  by (induction s rule: unescapedQuote.induct) (auto split: if_splits)

lemma inside_loop_escaped:
  "squote \<notin> set s \<Longrightarrow> dquote \<notin> set s \<Longrightarrow> backslash \<notin> set s \<Longrightarrow> CHR ''('' \<notin> set s \<Longrightarrow>
   inside_loop [backslash] (escapeParens s @ rest) ins n False None
     = inside_loop [backslash] rest (ins @ s) n False None"
proof (induction s arbitrary: ins)
  case Nil
  then show ?case by simp
next
  case (Cons c s)
  have bs: "backslash \<noteq> squote" "backslash \<noteq> dquote" "backslash \<noteq> CHR '')''"
    by (simp_all add: backslash_def squote_def dquote_def)
  from Cons.prems have c: "c \<noteq> squote" "c \<noteq> dquote" "c \<noteq> backslash" "c \<noteq> CHR ''(''"
    by auto
  from Cons.prems have IH: "inside_loop [backslash] (escapeParens s @ rest) (ins @ [c]) n False None
     = inside_loop [backslash] rest ((ins @ [c]) @ s) n False None"
    by (intro Cons.IH) auto
  show ?case
  proof (cases "c = CHR '')''")
    case True
    then show ?thesis using IH bs by simp
  next
    case False
    then show ?thesis using IH c by simp
  qed
qed

text \<open>
  C5 (amended). For every string \<open>s\<close> free of unescaped quotes that holds no backslash
  and no opening parenthesis, scanning the escaped parenthesised form returns \<open>s\<close>
  exactly: \<open>inside("(" + s' + ")") = s\<close>, where \<open>s'\<close> is \<open>s\<close> with every closing
  parenthesis escaped by the default backslash delimiter.
\<close>

theorem inside_escaped_roundtrip:
  assumes "\<not> unescapedQuote s" and "backslash \<notin> set s" and "CHR ''('' \<notin> set s"
  shows "inside (''('' @ escapeParens s @ '')'') default_delimiter = Inr s"
proof -
  from assms(1,2) have q: "squote \<notin> set s" "dquote \<notin> set s"
    using no_unescapedQuote_no_quote by blast+
  have "inside_loop [backslash] (escapeParens s @ '')'') [] 1 False None
          = inside_loop [backslash] '')'' ([] @ s) 1 False None"
    using q assms(2,3) by (rule inside_loop_escaped)
  also have "\<dots> = Inr s"
    by (simp add: backslash_def squote_def dquote_def)
  finally show ?thesis
    by (simp add: inside_def default_delimiter_def)
qed

theorem inside_escaped_roundtrip_witness:
  "\<not> unescapedQuote ''a)b'' \<and> backslash \<notin> set ''a)b'' \<and> CHR ''('' \<notin> set ''a)b''
   \<and> inside (''('' @ escapeParens ''a)b'' @ '')'') default_delimiter = Inr ''a)b''"
proof -
  have h: "\<not> unescapedQuote ''a)b''" "backslash \<notin> set ''a)b''" "CHR ''('' \<notin> set ''a)b''"
    by (simp_all add: squote_def dquote_def backslash_def)
  show ?thesis using h inside_escaped_roundtrip [OF h] by simp
qed

text \<open>
  C5 as stated fails: \<open>"("\<close> is free of quotes, but the scan of \<open>"(()"\<close> counts a nested
  group and runs off the end of the text; a lone backslash is free of quotes too, but
  the scanner takes it as the delimiter and reads the closing parenthesis as a literal.
\<close>

theorem inside_escaped_roundtrip_counterexample:
  "\<not> unescapedQuote ''(''
   \<and> inside (''('' @ escapeParens ''('' @ '')'') default_delimiter \<noteq> Inr ''(''
   \<and> \<not> unescapedQuote [backslash]
   \<and> inside (''('' @ escapeParens [backslash] @ '')'') default_delimiter \<noteq> Inr [backslash]"
  by (simp add: inside_def default_delimiter_def backslash_def squote_def dquote_def)

text \<open>
  C10. At top nesting level \<open>splitArguments\<close> strips a matching pair of quote
  characters while scanning: the opening quote only sets \<open>quoteType\<close> and the closing
  quote only clears it, neither is appended to the argument buffer; the buffer is then
  trimmed when the argument is pushed. So white space that the quotes protected is
  removed all the same: \<open>splitArguments('" foo"') = ["foo"]\<close> and
  \<open>splitArguments('a," b ",c') = ["a","b","c"]\<close>.
\<close>

theorem splitArguments_strips_quotes:
  assumes "q = squote \<or> q = dquote" and "[q] \<noteq> delimiter"
  shows "splitArguments_loop delimiter (q # rest) args currentArg False None
           = splitArguments_loop delimiter rest args currentArg False (Some q)
       \<and> splitArguments_loop delimiter (q # rest) args currentArg False (Some q)
           = splitArguments_loop delimiter rest args currentArg False None
       \<and> splitArguments_loop delimiter [] args currentArg False None
           = Inr (if length (js_trim currentArg) > 0 then args @ [RStr (trim currentArg)] else args)
       \<and> splitArguments ''\" foo\"'' default_delimiter
           = Inr [RStr ''foo'']
       \<and> splitArguments ''a,\" b \",c'' 
           default_delimiter = Inr [RStr ''a'', RStr ''b'', RStr ''c'']"
proof -
  have 1: "splitArguments_loop delimiter (q # rest) args currentArg False None
           = splitArguments_loop delimiter rest args currentArg False (Some q)"
    using assms by auto
  have 2: "splitArguments_loop delimiter (q # rest) args currentArg False (Some q)
           = splitArguments_loop delimiter rest args currentArg False None"
    using assms by auto
  have 3: "splitArguments_loop delimiter [] args currentArg False None
           = Inr (if length (js_trim currentArg) > 0 then args @ [RStr (trim currentArg)] else args)"
    by simp
  have 4: "splitArguments ''\" foo\"'' default_delimiter
           = Inr [RStr ''foo'']"
    by code_simp
  have 5: "splitArguments ''a,\" b \",c'' 
           default_delimiter = Inr [RStr ''a'', RStr ''b'', RStr ''c'']"
    by code_simp
  show ?thesis using 1 2 3 4 5 by blast
qed

theorem splitArguments_strips_quotes_witness:
  "(dquote = squote \<or> dquote = dquote) \<and> [dquote] \<noteq> default_delimiter
   \<and> splitArguments_loop default_delimiter (dquote # '' foo'' @ [dquote]) [] [] False None
        = splitArguments_loop default_delimiter ('' foo'' @ [dquote]) [] [] False (Some dquote)
   \<and> splitArguments_loop default_delimiter [dquote] [] '' foo'' False (Some dquote)
        = splitArguments_loop default_delimiter [] [] '' foo'' False None
   \<and> splitArguments_loop default_delimiter [] [] '' foo'' False None = Inr [RStr ''foo'']"
proof -
  have h: "dquote = squote \<or> dquote = dquote" "[dquote] \<noteq> default_delimiter"
    by (simp_all add: default_delimiter_def dquote_def backslash_def)
  have t: "trim '' foo'' = ''foo''" "js_trim '' foo'' = ''foo''" by code_simp+
  show ?thesis
    using h splitArguments_strips_quotes [OF h, of "'' foo'' @ [dquote]" "[]" "[]"]
      splitArguments_strips_quotes [OF h, of "[]" "[]" "'' foo''"] t
    by simp
qed

section \<open>Properties of the normalizer\<close>

text \<open>
  The replacer of \<open>normalizeSyntax\<close> never throws: an operator the pattern captures
  with fewer than three characters is one of \<open>=\<close>, \<open>==\<close>, \<open>!=\<close>, \<open><=\<close>, \<open>>=\<close>, \<open><\<close>
  and \<open>>\<close>, and each is a key of \<open>operatorMap\<close>.
\<close>

lemma replace_all_returns:
  assumes "\<forall>t cap rest. matcher t = Some (cap, rest) \<longrightarrow> (\<exists>rep. replacer cap = Inr rep)"
  shows "\<exists>out. replace_all matcher replacer s = Inr out"
  using assms
proof (induction matcher replacer s rule: replace_all.induct)
  case (1 matcher replacer s)
  show ?case
  proof (cases "matcher s")
    case None
    show ?thesis
    proof (cases s)
      case Nil
      with None show ?thesis by (simp add: replace_all.simps [of matcher replacer "[]"])
    next
      case (Cons c t)
      from "1.IH"(1) [OF None Cons "1.prems"] obtain out where
        "replace_all matcher replacer t = Inr out" by blast
      with None Cons show ?thesis
        by (simp add: replace_all.simps [of matcher replacer "c # t"])
    qed
  next
    case (Some a)
    obtain cap rest where a: "a = (cap, rest)" by (cases a)
    from "1.prems" Some a obtain rep where rep: "replacer cap = Inr rep" by blast
    show ?thesis
    proof (cases "length rest < length s")
      case True
      from "1.IH"(2) [OF Some a [symmetric] rep True "1.prems"] obtain out where
        "replace_all matcher replacer rest = Inr out" by blast
      with Some a rep True show ?thesis
        by (simp add: replace_all.simps [of matcher replacer s])
    next
      case False
      show ?thesis
      proof (cases s)
        case Nil
        with Some a rep False show ?thesis
          by (simp add: replace_all.simps [of matcher replacer "[]"])
      next
        case (Cons c t)
        from "1.IH"(3) [OF Some a [symmetric] rep False Cons "1.prems"] obtain out where
          "replace_all matcher replacer t = Inr out" by blast
        with Some a rep False Cons show ?thesis
          by (simp add: replace_all.simps [of matcher replacer "c # t"])
      qed
    qed
  qed
qed

lemma star_iter_suffix:
  assumes "\<And>t y. y \<in> set (f t) \<Longrightarrow> \<exists>pre. t = pre @ y"
  shows "x \<in> set (star_iter f n s) \<Longrightarrow> \<exists>pre. s = pre @ x"
proof (induction n arbitrary: s)
  case 0
  then show ?case by simp
next
  case (Suc n)
  from Suc.prems have "x = s \<or> (\<exists>r \<in> set (f s). x \<in> set (star_iter f n r))"
    by (auto split: if_splits)
  then show ?case
  proof
    assume "x = s" then show ?thesis by simp
  next
    assume "\<exists>r \<in> set (f s). x \<in> set (star_iter f n r)"
    then obtain r where r: "r \<in> set (f s)" and x: "x \<in> set (star_iter f n r)" by blast
    from assms [OF r] obtain p1 where "s = p1 @ r" by blast
    moreover from Suc.IH [OF x] obtain p2 where "r = p2 @ x" by blast
    ultimately have "s = (p1 @ p2) @ x" by simp
    then show ?thesis by blast
  qed
qed

lemma star_iter_class_suffix:
  "x \<in> set (star_iter (rmatch (Class p)) n s) \<Longrightarrow> \<exists>pre. s = pre @ x"
proof (rule star_iter_suffix)
  fix t y assume "y \<in> set (rmatch (Class p) t)"
  then have "t = [hd t] @ y" by (cases t) (auto split: if_splits)
  then show "\<exists>pre. t = pre @ y" by blast
qed

lemma rx_operator_captures:
  assumes "r2 \<in> set (rmatch rx_operator r1)"
  shows "\<exists>op. r1 = op @ r2 \<and> (length op < 3 \<longrightarrow> operatorMap op \<noteq> None)"
proof -
  from assms consider
      (eq) m0 m1 where "m0 = r1 \<or> (\<exists>x. r1 = x # m0 \<and> x \<in> set ''<>!'')"
        "m0 = CHR ''='' # m1" "r2 = m1 \<or> (\<exists>m2. m2 \<in> set (star_iter (rmatch (Class isWordChar)) (length m1) m1) \<and> m2 = CHR ''='' # r2)"
    | (gt) "r1 = CHR ''>'' # r2"
    | (lt) "r1 = CHR ''<'' # r2"
    by (auto simp: rx_operator_def Opt_def split: list.splits if_splits)
  then show ?thesis
  proof cases
    case eq
    from eq(3) have tail: "\<exists>t. m1 = t @ r2 \<and> (t = [] \<or> length t \<ge> 1 \<and> (t \<noteq> ''='' \<longrightarrow> length t \<ge> 2))"
    proof
      assume "r2 = m1" then show ?thesis by simp
    next
      assume "\<exists>m2. m2 \<in> set (star_iter (rmatch (Class isWordChar)) (length m1) m1) \<and> m2 = CHR ''='' # r2"
      then obtain m2 where m2: "m2 \<in> set (star_iter (rmatch (Class isWordChar)) (length m1) m1)"
        and e: "m2 = CHR ''='' # r2" by blast
      from star_iter_class_suffix [OF m2] obtain pre where "m1 = pre @ m2" by blast
      with e have "m1 = (pre @ ''='') @ r2" by simp
      moreover have "length (pre @ ''='') \<ge> 1 \<and> (pre @ ''='' \<noteq> ''='' \<longrightarrow> length (pre @ ''='') \<ge> 2)"
        by (cases pre) auto
      ultimately show ?thesis by blast
    qed
    then obtain t where t: "m1 = t @ r2" and tl: "t = [] \<or> length t \<ge> 1 \<and> (t \<noteq> ''='' \<longrightarrow> length t \<ge> 2)"
      by blast
    from eq(1) show ?thesis
    proof
      assume "m0 = r1"
      with eq(2) t have "r1 = (CHR ''='' # t) @ r2" by simp
      moreover have "length (CHR ''='' # t) < 3 \<longrightarrow> operatorMap (CHR ''='' # t) \<noteq> None"
        using tl by (auto simp: operatorMap_def)
      ultimately show ?thesis by blast
    next
      assume "\<exists>x. r1 = x # m0 \<and> x \<in> set ''<>!''"
      then obtain x where x: "r1 = x # m0" "x \<in> set ''<>!''" by blast
      with eq(2) t have "r1 = (x # CHR ''='' # t) @ r2" by simp
      moreover have "length (x # CHR ''='' # t) < 3 \<longrightarrow> operatorMap (x # CHR ''='' # t) \<noteq> None"
        using tl x(2) by (auto simp: operatorMap_def)
      ultimately show ?thesis by blast
    qed
  next
    case gt
    then have "r1 = ''>'' @ r2" by simp
    moreover have "operatorMap ''>'' \<noteq> None" by (simp add: operatorMap_def)
    ultimately show ?thesis by blast
  next
    case lt
    then have "r1 = ''<'' @ r2" by simp
    moreover have "operatorMap ''<'' \<noteq> None" by (simp add: operatorMap_def)
    ultimately show ?thesis by blast
  qed
qed

lemma normalize_replacer_returns:
  assumes "normalize_match t = Some (cap, rest)"
  shows "\<exists>rep. normalize_replacer cap = Inr rep"
proof -
  define ms where "ms = concat (map (\<lambda>r1. concat (map (\<lambda>r2. map (\<lambda>r3. (r1, r2, r3)) (rmatch rx_value r2))
                                          (rmatch rx_operator r1)))
                       (rmatch rx_property t))"
  from assms obtain r1 r2 r3 more where
    ms: "ms = (r1, r2, r3) # more"
    and cap: "cap = (take (length t - length r1) t,
                     take (length r1 - length r2) r1,
                     take (length r2 - length r3) r2)"
    unfolding normalize_match_def ms_def [symmetric]
    by (cases ms) auto
  have "(r1, r2, r3) \<in> set ms" using ms by simp
  then have m: "(r1, r2, r3) \<in> set (concat (map (\<lambda>r1. concat (map (\<lambda>r2. map (\<lambda>r3. (r1, r2, r3)) (rmatch rx_value r2))
                                          (rmatch rx_operator r1)))
                       (rmatch rx_property t)))"
    by (simp add: ms_def)
  from m have "r2 \<in> set (rmatch rx_operator r1)" by auto
  from rx_operator_captures [OF this] obtain op where
    op: "r1 = op @ r2" "length op < 3 \<longrightarrow> operatorMap op \<noteq> None" by blast
  from op(1) have "take (length r1 - length r2) r1 = op" by simp
  with cap op(2) show ?thesis
    by (auto simp: normalize_replacer_def split: option.splits)
qed

lemma normalizeSyntax_returns: "\<exists>out. normalizeSyntax query = Inr out"
  unfolding normalizeSyntax_def Let_def
  by (rule replace_all_returns) (blast dest: normalize_replacer_returns)

text \<open>
  C3. The claim: \<open>normalizeSyntax("foo>==bar")\<close> throws a parse error (illegal operator)
  and \<open>normalizeSyntax("foo>=bar")\<close> returns \<open>"ge(foo,bar)"\<close>. The second half holds. For
  the first, the operator group captures \<open>>==\<close>, whose length is 3, so the replacer
  takes the branch of the bracketed operators and strips the first and the last
  character: the result is \<open>"=(foo,bar)"\<close> and nothing is thrown. No query at all makes
  \<open>normalizeSyntax\<close> throw.
\<close>

theorem normalizeSyntax_chained_comparison:
  "normalizeSyntax ''foo>==bar'' = Inr ''=(foo,bar)''
   \<and> normalizeSyntax ''foo>=bar'' = Inr ''ge(foo,bar)''
   \<and> (\<exists>out. normalizeSyntax query = Inr out)"
proof -
  have "normalizeSyntax ''foo>==bar'' = Inr ''=(foo,bar)''
        \<and> normalizeSyntax ''foo>=bar'' = Inr ''ge(foo,bar)''"
    by code_simp
  then show ?thesis using normalizeSyntax_returns by blast
qed

section \<open>Properties of the parser\<close>

text \<open>
  C6. \<open>parse("")\<close> throws a parse error, and so does \<open>parse\<close> of every query whose
  first character is \<open>?\<close>, whatever follows it: both guards come before the text is
  normalized or walked, so the result does not depend on the rest of the query.
\<close>

theorem parse_guards:
  "parse '''' = Inl (RQLParseError ''Query empty or invalid: '')
   \<and> parse (CHR ''?'' # rest)
       = Inl (RQLParseError (''Query must not start with ?: '' @ CHR ''?'' # rest))
   \<and> parse ''?eq(foo,3)'' = Inl (RQLParseError ''Query must not start with ?: ?eq(foo,3)'')"
  by (simp add: parse_def charAt_def)

section \<open>Properties of the converters\<close>

text \<open>
  C7. The claim: a string that begins with word characters immediately followed by an
  unescaped colon is split there into a tag and a remainder, and an unknown tag throws
  a parse error. The test of the source, \<open>/^\w+[^\\]:/\<close>, asks for one more character
  between the word characters and the colon, so a tag of one character is not seen:
  \<open>"a:b"\<close> and \<open>"1:30"\<close> go to the default converter as they are and come back as
  strings, although \<open>a\<close> and \<open>1\<close> are not registered, while \<open>"foo:bar"\<close> and \<open>"12:30"\<close>
  throw.
\<close>

theorem stringToValue_one_char_tag:
  "\<not> registered ''a'' \<and> stringToValue ''a:b'' = Inr (Str ''a:b'')
   \<and> \<not> registered ''1'' \<and> stringToValue ''1:30'' = Inr (Str ''1:30'')
   \<and> stringToValue ''12:30'' = Inl (RQLParseError (''Unknown converter: '' @ [dquote] @ ''12''))
   \<and> stringToValue ''foo:bar'' = Inl (RQLParseError (''Unknown converter: '' @ [dquote] @ ''foo''))"
  by code_simp

text \<open>
  C8. The claim: when the literal table and the number conversion fail and the
  percent-decoded string is wrapped in single quotes, \<open>auto\<close> returns the JSON parse of
  the inner decoded content. It does for \<open>'foo'\<close>. With a percent escape in the text it
  does not: the closing quote is looked for in the decoded string at the last index of
  the raw one, which is past its end, so \<open>'a%20b'\<close> and \<open>%27foo%27\<close> come back with
  their quotes.
\<close>

theorem auto_quoted_with_escape:
  "autoConverted ([squote] @ ''a%20b'' @ [squote]) = None
   \<and> converters_number ([squote] @ ''a%20b'' @ [squote]) = Inl RQLConversionError
   \<and> converters_string ([squote] @ ''a%20b'' @ [squote]) = Inr ([squote] @ ''a b'' @ [squote])
   \<and> converters_auto ([squote] @ ''a%20b'' @ [squote]) = Inr (Str ([squote] @ ''a b'' @ [squote]))
   \<and> converters_string ''%27foo%27'' = Inr ([squote] @ ''foo'' @ [squote])
   \<and> converters_auto ''%27foo%27'' = Inr (Str ([squote] @ ''foo'' @ [squote]))
   \<and> converters_auto ([squote] @ ''foo'' @ [squote]) = Inr (Str ''foo'')"
  by code_simp

text \<open>
  C9. The claim: the output of \<open>encodeString\<close> holds no parenthesis. \<open>replace\<close> with a
  string pattern replaces the first occurrence only, and \<open>encodeURIComponent\<close> leaves
  parentheses as they are, so every parenthesis after the first of its kind stays.
\<close>

theorem encodeString_second_paren:
  "encodeString ''(foo)'' = ''%28foo%29''
   \<and> encodeString ''f(g(x))'' = ''f%28g(x%29)''
   \<and> CHR ''('' \<in> set (encodeString ''f(g(x))'')
   \<and> CHR '')'' \<in> set (encodeString ''f(g(x))'')"
  by code_simp

section \<open>Properties of the serializer\<close>

text \<open>
  C4 (amended). Serializing the \<open>RQLQuery\<close> built from the tree that parsing the simple
  query returns reproduces the text: \<open>RQLQuery.parse("eq(foo,bar)")\<close>, which is
  \<open>parseObject\<close> of what \<open>parse\<close> returns, is the query \<open>eq\<close> of \<open>foo\<close> and \<open>bar\<close>, and
  \<open>queryToString\<close> of it is \<open>"eq(foo,bar)"\<close>.
\<close>

theorem serialize_parsed_query:
  "rqlQuery_parse ''eq(foo,bar)'' = Inr (Query ''eq'' [Str ''foo'', Str ''bar''])
   \<and> (case rqlQuery_parse ''eq(foo,bar)'' of Inl e \<Rightarrow> Inl e | Inr q \<Rightarrow> queryToString q)
       = Inr (Str ''eq(foo,bar)'')"
  by code_simp

text \<open>
  C4 as stated fails: \<open>parse\<close> returns a plain object, which is no instance of
  \<open>RQLQuery\<close>, so \<open>queryToString\<close> hands it to \<open>encodeValue\<close> as a value; its
  \<open>toString()\<close> is \<open>[object Object]\<close> and the result is that text behind the type
  \<open>object\<close>, percent-encoded. (The later revision of \<open>encodeValue\<close> returns the JSON
  text of the object behind the type \<open>json\<close> instead, which is not the query text
  either.)
\<close>

theorem serialize_parsed_query_counterexample:
  "parse ''eq(foo,bar)'' = Inr (Operator ''eq'' [Str ''foo'', Str ''bar''])
   \<and> (case parse ''eq(foo,bar)'' of Inl e \<Rightarrow> Inl e | Inr t \<Rightarrow> queryToString t)
       = Inr (Str ''object%3A%5Bobject%20Object%5D'')
   \<and> (case parse ''eq(foo,bar)'' of Inl e \<Rightarrow> Inl e | Inr t \<Rightarrow> queryToString t)
       \<noteq> Inr (Str ''eq(foo,bar)'')"
  by code_simp

section \<open>Properties of the walker\<close>

lemma inside_loop_append:
  "inside_loop d xs ins n del q = Inr r \<Longrightarrow> inside_loop d (xs @ ys) ins n del q = Inr r"
proof (induction xs arbitrary: ins n del q)
  case Nil
  then show ?case by simp
next
  case (Cons c cs)
  then show ?case
    by (auto split: if_splits)
qed

lemma closedGroup_inside:
  assumes "closedGroup body"
  shows "inside (CHR ''('' # body @ CHR '')'' # rest) default_delimiter = Inr body"
proof -
  from assms have "inside_loop default_delimiter (body @ '')'') [] 1 False None = Inr body"
    by (simp add: closedGroup_def inside_def)
  from inside_loop_append [OF this, of rest] show ?thesis
    by (simp add: inside_def)
qed

lemma walkQuery_loop_name:
  "plainName name \<Longrightarrow>
   walkQuery_loop (name @ rest) (n0, a0) tp = walkQuery_loop rest (n0 @ name, a0) tp"
proof (induction name arbitrary: n0)
  case Nil
  then show ?case by simp
next
  case (Cons c name)
  from Cons.prems have c: "c \<noteq> CHR ''&''" "c \<noteq> CHR '',''" "c \<noteq> CHR ''|''" "c \<noteq> CHR ''(''"
    and p: "plainName name"
    by (auto simp: plainName_def)
  show ?case using c Cons.IH [OF p, of "n0 @ [c]"] by simp
qed

lemma walkQuery_loop_call:
  assumes "wellFormedCall c"
  shows "walkQuery_loop (callText c @ rest) ([], []) tp =
           (case callArgs c of
              Inl e \<Rightarrow> Inl e
            | Inr vals \<Rightarrow> walkQuery_loop rest (fst c, vals) tp)"
proof -
  obtain name body where c: "c = (name, body)" by (cases c)
  from assms c have p: "plainName name" and g: "closedGroup body"
    by (simp_all add: wellFormedCall_def)
  have "walkQuery_loop (callText c @ rest) ([], []) tp
          = walkQuery_loop (CHR ''('' # body @ CHR '')'' # rest) (name, []) tp"
    using walkQuery_loop_name [OF p, of "CHR ''('' # body @ CHR '')'' # rest" "[]" "[]" tp] c
    by (simp add: callText_def)
  also have "\<dots> = (case callArgs c of
              Inl e \<Rightarrow> Inl e
            | Inr vals \<Rightarrow> walkQuery_loop rest (fst c, vals) tp)"
    using closedGroup_inside [OF g, of rest] c
    by (simp add: callArgs_def split: sum.splits)
  finally show ?thesis .
qed



text \<open>One kind of joiner under an aggregate node of its own kind: the node grows flat.\<close>

lemma walkQuery_loop_same_joiner:
  assumes "\<forall>c \<in> set cs. wellFormedCall c" and "length cs = Suc (length js)"
    and "(tn = ''and'' \<and> set js \<subseteq> {CHR ''&'', CHR '',''}) \<or> (tn = ''or'' \<and> set js \<subseteq> {CHR ''|''})"
  shows "walkQuery_loop (joinCalls cs js) ([], []) (Some (tn, acc)) =
           (case collect (map callNode cs) of
              Inl e \<Rightarrow> Inl e
            | Inr nodes \<Rightarrow> Inr (Operator tn (acc @ nodes)))"
  using assms
proof (induction cs js arbitrary: acc rule: joinCalls.induct)
  case (1 joiners)
  then show ?case by simp
next
  case (2 c joiners)
  then have w: "wellFormedCall c" by simp
  show ?case
    using walkQuery_loop_call [OF w, of "[]" "Some (tn, acc)"]
    by (auto simp: callNode_def split: sum.splits)
next
  case (3 c d cs)
  then show ?case by simp
next
  case (4 c d cs j joiners)
  then have w: "wellFormedCall c" and ws: "\<forall>x \<in> set (d # cs). wellFormedCall x"
    and l: "length (d # cs) = Suc (length joiners)"
    and k: "(tn = ''and'' \<and> set joiners \<subseteq> {CHR ''&'', CHR '',''}) \<or> (tn = ''or'' \<and> set joiners \<subseteq> {CHR ''|''})"
    and j: "(tn = ''and'' \<and> (j = CHR ''&'' \<or> j = CHR '','')) \<or> (tn = ''or'' \<and> j = CHR ''|'')"
    by auto
  show ?case
  proof (cases "callArgs c")
    case (Inl e)
    then show ?thesis
      using walkQuery_loop_call [OF w, of "j # joinCalls (d # cs) joiners" "Some (tn, acc)"]
      by (simp add: callNode_def)
  next
    case (Inr vals)
    then have cn: "callNode c = Inr (Operator (fst c) vals)" by (simp add: callNode_def)
    have "walkQuery_loop (joinCalls (c # d # cs) (j # joiners)) ([], []) (Some (tn, acc))
            = walkQuery_loop (j # joinCalls (d # cs) joiners) (fst c, vals) (Some (tn, acc))"
      using walkQuery_loop_call [OF w, of "j # joinCalls (d # cs) joiners" "Some (tn, acc)"] Inr
      by simp
    also have "\<dots> = walkQuery_loop (joinCalls (d # cs) joiners) ([], [])
                        (Some (tn, acc @ [Operator (fst c) vals]))"
      using j by auto
    also have "\<dots> = (case collect (map callNode (d # cs)) of
              Inl e \<Rightarrow> Inl e
            | Inr nodes \<Rightarrow> Inr (Operator tn ((acc @ [Operator (fst c) vals]) @ nodes)))"
      using "4.IH" [OF ws l k] .
    finally show ?thesis using cn
      by (simp split: sum.splits)
  qed
qed



text \<open>
  A text of two or more well-formed calls joined only by \<open>&\<close> and \<open>,\<close> gives one flat
  \<open>and\<close> node, and joined only by \<open>|\<close> one flat \<open>or\<close> node.
\<close>

lemma walkQuery_same_joiner:
  assumes "\<forall>c \<in> set cs. wellFormedCall c" and "length cs = Suc (length js)" and "js \<noteq> []"
    and "(tn = ''and'' \<and> set js \<subseteq> {CHR ''&'', CHR '',''}) \<or> (tn = ''or'' \<and> set js \<subseteq> {CHR ''|''})"
  shows "walkQuery (joinCalls cs js) 0 None =
           (case collect (map callNode cs) of
              Inl e \<Rightarrow> Inl e
            | Inr nodes \<Rightarrow> Inr (Operator tn nodes))"
proof -
  from assms(2,3) obtain c d cs' j js' where cs: "cs = c # d # cs'" and js: "js = j # js'"
    by (cases cs; cases js; cases "tl cs") auto
  from assms(1) cs have w: "wellFormedCall c" and ws: "\<forall>x \<in> set (d # cs'). wellFormedCall x"
    by auto
  from assms(2) cs js have l: "length (d # cs') = Suc (length js')" by simp
  from assms(4) js
  have k: "(tn = ''and'' \<and> set js' \<subseteq> {CHR ''&'', CHR '',''}) \<or> (tn = ''or'' \<and> set js' \<subseteq> {CHR ''|''})"
    by auto
  let ?rest = "joinCalls (d # cs') js'"
  have t: "joinCalls cs js = callText c @ j # ?rest"
    using cs js by simp
  show ?thesis
  proof (cases "callArgs c")
    case (Inl e)
    then show ?thesis
      using walkQuery_loop_call [OF w, of "j # ?rest" None] t cs
      by (simp add: callNode_def walkQuery_def)
  next
    case (Inr vals)
    then have cn: "callNode c = Inr (Operator (fst c) vals)" by (simp add: callNode_def)
    have "walkQuery (joinCalls cs js) 0 None = walkQuery_loop (j # ?rest) (fst c, vals) None"
      using walkQuery_loop_call [OF w, of "j # ?rest" None] Inr t
      by (simp add: walkQuery_def)
    also have "\<dots> = walkQuery_loop ?rest ([], []) (Some (tn, [] @ [Operator (fst c) vals]))"
      using assms(4) js by auto
    also have "\<dots> = (case collect (map callNode (d # cs')) of
              Inl e \<Rightarrow> Inl e
            | Inr nodes \<Rightarrow> Inr (Operator tn (([] @ [Operator (fst c) vals]) @ nodes)))"
      using walkQuery_loop_same_joiner [OF ws l k] .
    finally show ?thesis using cn cs
      by (simp split: sum.splits)
  qed
qed






text \<open>
  Claim C2 fails on a group that holds escaped characters. Take the text made of \<open>a(\<close>,
  a backslash, \<open>|\<close>, a backslash, \<open>|\<close> and \<open>)&b(1)\<close>: both pipes are escaped inside the
  parentheses of \<open>a\<close>, and the only joiner outside a group is \<open>&\<close>. \<open>inside\<close> returns the group without its two escape
  characters, the walker advances by the length of what \<open>inside\<close> returned, and so resumes
  two characters before the closing parenthesis, at the second pipe. The result is an
  \<open>or\<close> node with a nested \<open>and\<close> node and an operator named by the closing parenthesis,
  not the flat \<open>and\<close> node of two operators. The same argument written in quotes,
  \<open>a("||")&b(1)\<close>, gives the flat node.
\<close>

theorem walkQuery_escape_in_group:
  "inside (''('' @ [backslash] @ ''|'' @ [backslash] @ ''|)&b(1)'') default_delimiter = Inr ''||''
   \<and> walkQuery (''a('' @ [backslash] @ ''|'' @ [backslash] @ ''|)&b(1)'') 0 None =
       Inr (Operator ''or''
             [Operator ''a'' [Str ''||''],
              Operator ''and'' [Operator '')'' [], Operator ''b'' [Num (intNum 1)]]])
   \<and> walkQuery ''a(\"||\")&b(1)'' 0 None =
       Inr (Operator ''and'' [Operator ''a'' [Str ''||''], Operator ''b'' [Num (intNum 1)]])"
  by code_simp

end
